theory Spec2Isabelle
  imports Complex_Main
begin

section \<open>Python values\<close>

text \<open>
  Values decoded from JSON (\<open>json.load\<close>) and values kept in the manager's dictionaries.
  Python floats and ints are idealised as reals: \<open>100\<close> and \<open>100.0\<close> are the same
  number, as they are for Python's \<open>==\<close>.
\<close>

datatype jval =
    JNull
  | JBool bool
  | JNum real
  | JStr string
  | JArr "jval list"
  | JObj "(string \<times> jval) list"

datatype error = KeyError | TypeError | AttributeError

text \<open>
  The number a value stands for in \<open>a > b + 0.1\<close>. Python's \<open>bool\<close> is an \<open>int\<close>;
  every other non-numeric operand makes the comparison or the addition raise TypeError.
\<close>

fun as_number :: "jval \<Rightarrow> real option" where
  "as_number (JNum r) = Some r"
| "as_number (JBool b) = Some (if b then 1 else 0)"
| "as_number _ = None"

subsection \<open>Dictionaries with string keys\<close>

text \<open>
  A Python \<open>dict\<close> keeps insertion order; assigning to an existing key replaces the value
  in place, assigning to a new key appends.
\<close>

type_synonym 'v dict = "(string \<times> 'v) list"

definition dict_get :: "'v dict \<Rightarrow> string \<Rightarrow> 'v option" where
  "dict_get d k = map_of d k"

fun dict_set :: "'v dict \<Rightarrow> string \<Rightarrow> 'v \<Rightarrow> 'v dict" where
  "dict_set [] k v = [(k, v)]"
| "dict_set ((k', v') # d) k v = (if k' = k then (k, v) # d else (k', v') # dict_set d k v)"

text \<open>\<open>{**a, **b}\<close>: the entries of \<open>b\<close> are assigned into a copy of \<open>a\<close>, in order.\<close>

fun dict_merge :: "'v dict \<Rightarrow> 'v dict \<Rightarrow> 'v dict" where
  "dict_merge a [] = a"
| "dict_merge a ((k, v) # b) = dict_merge (dict_set a k v) b"

section \<open>The durable version file\<close>

text \<open>
  What \<open>version.json\<close> holds, as far as \<open>os.path.exists\<close> and \<open>json.load\<close> can tell:
  no file, text that \<open>json.load\<close> rejects (empty or truncated text among it), or text
  that decodes to a value. \<open>json.dump\<close> followed by \<open>json.load\<close> is taken to give the
  value back.
\<close>

datatype file_content = Absent | Invalid | Json jval

text \<open>
  How one call of \<open>open(self.state_file, 'w')\<close> and \<open>json.dump\<close> ends.
  \<open>OpenFailed\<close>: \<open>open\<close> raises, the file is not touched.
  \<open>DumpFailed\<close>: \<open>open\<close> has truncated the file and \<open>json.dump\<close> raises before the closing
  brace is written, so the file holds a proper prefix of the text of an object.
  Both exceptions are caught and printed by \<open>_save_state\<close>.
\<close>

datatype write_outcome = Written | OpenFailed | DumpFailed

definition save_state :: "write_outcome \<Rightarrow> jval dict \<Rightarrow> file_content \<Rightarrow> file_content" where
  "save_state wo times_dict f =
     (case wo of
        Written \<Rightarrow> Json (JObj times_dict)
      | OpenFailed \<Rightarrow> f
      | DumpFailed \<Rightarrow> Invalid)"

definition default_state :: "jval dict" where
  "default_state = [(''IPS'', JNum 0), (''MTESS'', JNum 0)]"

text \<open>
  \<open>_read_state\<close>. Every exception is caught, so the result is always a dictionary.
  For a decoded value that is not an object, \<open>"version" in data\<close> either raises TypeError
  (null, numbers, booleans), or is true and returns the defaults, or is false and then
  \<open>{**default_state, **data}\<close> raises TypeError (lists, strings): all of these end in
  \<open>default_state\<close>.
\<close>

definition read_state :: "file_content \<Rightarrow> jval dict" where
  "read_state f =
     (case f of
        Absent \<Rightarrow> default_state
      | Invalid \<Rightarrow> default_state
      | Json data \<Rightarrow>
          (case data of
             JObj kvs \<Rightarrow>
               (if ''version'' \<in> fst ` set kvs then default_state
                else dict_merge default_state kvs)
           | _ \<Rightarrow> default_state))"

section \<open>Identifiers and rows\<close>

text \<open>
  An identifier as it arrives in the request's JSON or sits in the \<open>ID\<close> column:
  an integer, a string, or \<open>None\<close>.
\<close>

datatype pyval = PInt int | PStr string | PNone

definition digit_char :: "nat \<Rightarrow> char" where
  "digit_char n = ''0123456789'' ! n"

fun str_nat :: "nat \<Rightarrow> string" where
  "str_nat n = (if n < 10 then [digit_char n] else str_nat (n div 10) @ [digit_char (n mod 10)])"

declare str_nat.simps [simp del]

definition str_int :: "int \<Rightarrow> string" where
  "str_int i = (if i < 0 then CHR ''-'' # str_nat (nat (- i)) else str_nat (nat i))"

text \<open>Python's \<open>str(x)\<close>, which is also what \<open>astype(str)\<close> applies to each cell.\<close>

fun str :: "pyval \<Rightarrow> string" where
  "str (PInt i) = str_int i"
| "str (PStr s) = s"
| "str PNone = ''None''"

text \<open>
  One row of a cached table: the position column \<open>#\<close>, the columns the cache writes, and
  the remaining columns, which it only carries. \<open>Modified\<close> is a time stamp, \<open>None\<close> for
  \<open>NaT\<close>. A table is the list of its rows; the frame \<open>pd.DataFrame()\<close> that the cache
  starts with has no rows.
\<close>

record row =
  num :: nat
  ID :: pyval
  Modified :: "real option"
  REVISADO :: string
  ModificadoPor :: string
  cols :: "string dict"

type_synonym table = "row list"

section \<open>The manager\<close>

text \<open>
  The attributes of \<open>SharePointManager\<close> that the cache uses, and the content of the file
  named by \<open>state_file\<close>. There is no attribute \<open>df\<close>: no method assigns one.
\<close>

record manager =
  access_token :: "string option"
  site_id :: "string option"
  list_ids :: "string option dict"
  dfs :: "table dict"
  last_change_times :: "jval dict"
  last_local_update_times :: "real dict"
  version_json :: file_content

text \<open>\<open>_save_state(self.last_change_times)\<close> on the manager.\<close>

definition save_times :: "write_outcome \<Rightarrow> manager \<Rightarrow> manager" where
  "save_times wo m = m\<lparr>version_json := save_state wo (last_change_times m) (version_json m)\<rparr>"

text \<open>
  \<open>update_status_by_ids\<close>. \<open>now_ts\<close> is the reading of \<open>pd.Timestamp.now\<close>, \<open>now\<close> that of
  \<open>time.time()\<close>, \<open>wo\<close> how the write of the version file ends. The method returns \<open>None\<close>
  on every path and catches every exception, so the result is the manager after the call.
  On a frame without an \<open>ID\<close> column (the initial one) \<open>df["ID"]\<close> raises KeyError, which
  the handler catches before anything is assigned; such a frame has no rows, and the branch
  for an all-false mask leaves the manager as it is too.
\<close>

text \<open>One entry of \<open>df["ID"].astype(str).isin(str_ids)\<close>.\<close>

definition isin :: "string list \<Rightarrow> row \<Rightarrow> bool" where
  "isin str_ids r = (str (ID r) \<in> set str_ids)"

definition update_status_by_ids ::
  "pyval list \<Rightarrow> string \<Rightarrow> string option \<Rightarrow> string \<Rightarrow> real \<Rightarrow> real \<Rightarrow> write_outcome
     \<Rightarrow> manager \<Rightarrow> manager" where
  "update_status_by_ids ids status modifier source now_ts now wo m =
     (case dict_get (dfs m) source of
        None \<Rightarrow> m
      | Some df \<Rightarrow>
          (let str_ids = map str ids;
               mask = isin str_ids
           in if \<not> list_ex mask df then m
              else
                (let df1 = map (\<lambda>r. if mask r then r\<lparr>REVISADO := status\<rparr> else r) df;
                     df2 = map (\<lambda>r. if mask r then r\<lparr>Modified := Some now_ts\<rparr> else r) df1;
                     df3 = (case modifier of
                              None \<Rightarrow> df2
                            | Some who \<Rightarrow>
                                if who = [] then df2
                                else map (\<lambda>r. if mask r then r\<lparr>ModificadoPor := who\<rparr> else r) df2);
                     m1 = m\<lparr>dfs := dict_set (dfs m) source df3\<rparr>;
                     m2 = m1\<lparr>last_change_times := dict_set (last_change_times m1) source (JNum now)\<rparr>;
                     m3 = m2\<lparr>last_local_update_times :=
                              dict_set (last_local_update_times m2) source now\<rparr>
                 in save_times wo m3)))"

text \<open>
  What lines 183 to 272 of \<open>fetch_data\<close> end in. They talk to the remote service
  (authentication, list lookup, paging, field mapping):
  \<open>NoListId\<close>: the list id is still missing after the re-scan;
  \<open>Raised\<close>: an exception inside the \<open>try\<close>;
  \<open>Items clean_data\<close>: the mapped rows, with \<open>Modified\<close> already converted.
\<close>

datatype remote_result = NoListId | Raised | Items "row list"

text \<open>\<open>new_df.insert(0, "#", range(1, len(new_df) + 1))\<close>\<close>

definition add_index :: "row list \<Rightarrow> table" where
  "add_index rs = map (\<lambda>(i, r). r\<lparr>num := i\<rparr>) (zip [1 ..< Suc (length rs)] rs)"

text \<open>
  \<open>fetch_data\<close>. \<open>t_guard\<close> is the reading of \<open>time.time()\<close> in the race guard,
  \<open>t_commit\<close> the one stored as the last-change time. The result is the manager after the
  call and the returned table, or the exception that leaves the method: the \<open>return
  self.dfs[source]\<close> for a missing list id is outside the \<open>try\<close>. An exception inside the
  \<open>try\<close> (the KeyError of \<open>self.last_local_update_times[source]\<close> among them) returns an
  empty frame.
\<close>

definition fetch_data ::
  "string \<Rightarrow> remote_result \<Rightarrow> real \<Rightarrow> real \<Rightarrow> write_outcome \<Rightarrow> manager
     \<Rightarrow> manager \<times> (error + table)" where
  "fetch_data source rr t_guard t_commit wo m =
     (case rr of
        NoListId \<Rightarrow>
          (case dict_get (dfs m) source of
             None \<Rightarrow> (m, Inl KeyError)
           | Some df \<Rightarrow> (m, Inr df))
      | Raised \<Rightarrow> (m, Inr [])
      | Items clean_data \<Rightarrow>
          (case dict_get (last_local_update_times m) source of
             None \<Rightarrow> (m, Inr [])
           | Some llu \<Rightarrow>
               if t_guard - llu < 5 then
                 (case dict_get (dfs m) source of
                    None \<Rightarrow> (m, Inr [])
                  | Some df \<Rightarrow> (m, Inr df))
               else
                 (let new_df = add_index clean_data;
                      m1 = m\<lparr>dfs := dict_set (dfs m) source new_df\<rparr>;
                      m2 = m1\<lparr>last_change_times :=
                               dict_set (last_change_times m1) source (JNum t_commit)\<rparr>
                  in (save_times wo m2, Inr new_df))))"

text \<open>
  \<open>self.dfs.get(source, pd.DataFrame())\<close>: the cached table of a dataset, as the request
  handlers and the read methods get it.
\<close>

definition dfs_get :: "manager \<Rightarrow> string \<Rightarrow> table" where
  "dfs_get m source = (case dict_get (dfs m) source of None \<Rightarrow> [] | Some df \<Rightarrow> df)"


section \<open>The request handler for edits\<close>

text \<open>
  \<open>get_formatted_date\<close>: the text \<open>Desconocido\<close> when no row has a time stamp, else the
  latest one, rendered. \<open>fmt\<close> stands for the conversion to the local time zone and the
  wording of the date.
\<close>

definition get_formatted_date :: "(real \<Rightarrow> string) \<Rightarrow> table \<Rightarrow> string" where
  "get_formatted_date fmt df =
     (case List.map_filter Modified df of
        [] \<Rightarrow> ''Desconocido''
      | d # ds \<Rightarrow> fmt (fold max ds d))"

text \<open>
  The session of a request: the identity claims under \<open>user\<close>, if any.
  \<open>not session.get("user")\<close> holds for a missing entry and for empty claims.
\<close>

type_synonym session = "string dict option"

datatype response =
    Unauthorized
  | NoIds
  | ServerError
  | Success (resp_count: nat) (resp_last_updated: string)

text \<open>The arguments handed to \<open>patch_sharepoint_background\<close>.\<close>

type_synonym patch_job = "pyval list \<times> string \<times> string \<times> string"

text \<open>
  \<open>update_status\<close>, the handler of \<open>POST /api/update\<close>, with \<open>ids\<close>, \<open>status\<close> and
  \<open>source\<close> as read from the request body. It gives the manager after the call, the
  response, the background patch it started and whether it set \<open>monitor_event\<close>.
  For a source without a cached table \<open>get_formatted_date(None)\<close> raises AttributeError,
  which the handler turns into the status 500, after the patch thread was started.
\<close>

definition update_status ::
  "session \<Rightarrow> pyval list \<Rightarrow> string \<Rightarrow> string \<Rightarrow> (real \<Rightarrow> string) \<Rightarrow> real \<Rightarrow> real
     \<Rightarrow> write_outcome \<Rightarrow> manager \<Rightarrow> manager \<times> response \<times> patch_job option \<times> bool" where
  "update_status sess ids status source fmt now_ts now wo m =
     (case sess of
        None \<Rightarrow> (m, Unauthorized, None, False)
      | Some claims \<Rightarrow>
          if claims = [] then (m, Unauthorized, None, False)
          else if ids = [] then (m, NoIds, None, False)
          else
            (let modifier_name =
                   (case dict_get claims ''name'' of None \<Rightarrow> ''Usuario'' | Some n \<Rightarrow> n);
                 m' = update_status_by_ids ids status (Some modifier_name) source now_ts now wo m;
                 job = (ids, status, modifier_name, source)
             in case dict_get (dfs m') source of
                  None \<Rightarrow> (m', ServerError, Some job, False)
                | Some df \<Rightarrow>
                    (m', Success (length ids) (get_formatted_date fmt df), Some job, True)))"


section \<open>The reconciliation tick\<close>

text \<open>
  \<open>a > (b + eps)\<close> on Python values: the addition is evaluated first, then the comparison;
  either raises TypeError on an operand that is not a number.
\<close>

definition py_gt_plus :: "jval \<Rightarrow> jval \<Rightarrow> real \<Rightarrow> error + bool" where
  "py_gt_plus a b eps =
     (case as_number b of
        None \<Rightarrow> Inl TypeError
      | Some y \<Rightarrow>
          (case as_number a of
             None \<Rightarrow> Inl TypeError
           | Some x \<Rightarrow> Inr (x > y + eps)))"

text \<open>
  What one call of \<open>fetch_data\<close> meets: the remote outcome, the two clock readings and
  the outcome of the write of the version file.
\<close>

record fetch_env =
  fe_remote :: remote_result
  fe_guard :: real
  fe_commit :: real
  fe_write :: write_outcome

text \<open>
  What one tick meets, for each source: the reading of \<open>time.time()\<close> in the grace-period
  test of \<open>check_version\<close>, and the environment of the \<open>fetch_data\<close> call, if one is made.
\<close>

record tick_env =
  clock :: "string \<Rightarrow> real"
  fetch_of :: "string \<Rightarrow> fetch_env"

text \<open>
  The loop of \<open>check_version\<close> over the sources. \<open>file_versions\<close> is read once, before the
  loop. An exception leaves the method with the manager as it is at that moment.
\<close>

fun check_version_loop ::
  "tick_env \<Rightarrow> jval dict \<Rightarrow> string list \<Rightarrow> manager \<Rightarrow> string list
     \<Rightarrow> manager \<times> (error + string list)" where
  "check_version_loop env file_versions [] m updated_sources = (m, Inr updated_sources)"
| "check_version_loop env file_versions (source # rest) m updated_sources =
     (case dict_get (last_local_update_times m) source of
        None \<Rightarrow> (m, Inl KeyError)
      | Some llu \<Rightarrow>
          if clock env source - llu < 5
          then check_version_loop env file_versions rest m updated_sources
          else
            (case dict_get file_versions source of
               None \<Rightarrow> (m, Inl KeyError)
             | Some fv \<Rightarrow>
                 (case dict_get (last_change_times m) source of
                    None \<Rightarrow> (m, Inl KeyError)
                  | Some mv \<Rightarrow>
                      (case py_gt_plus fv mv 0.1 of
                         Inl e \<Rightarrow> (m, Inl e)
                       | Inr newer \<Rightarrow>
                           if newer then
                             (let fe = fetch_of env source in
                              case fetch_data source (fe_remote fe) (fe_guard fe) (fe_commit fe)
                                     (fe_write fe) m of
                                (m', Inl e) \<Rightarrow> (m', Inl e)
                              | (m', Inr df) \<Rightarrow>
                                  check_version_loop env file_versions rest m'
                                    (updated_sources @ [source]))
                           else check_version_loop env file_versions rest m updated_sources))))"

definition check_version ::
  "tick_env \<Rightarrow> manager \<Rightarrow> manager \<times> (error + jval dict \<times> string list)" where
  "check_version env m =
     (case check_version_loop env (read_state (version_json m)) [''IPS'', ''MTESS''] m [] of
        (m', Inl e) \<Rightarrow> (m', Inl e)
      | (m', Inr updated_sources) \<Rightarrow> (m', Inr (last_change_times m', updated_sources)))"

text \<open>
  A source is ready for the comparison of \<open>check_version\<close>: its three time stamps are
  there and are numbers, and it has a cached table. \<open>llu\<close>, \<open>fv\<close> and \<open>mv\<close> name the
  last local edit, the persisted value and the cached value.
\<close>

definition loop_ready :: "manager \<Rightarrow> jval dict \<Rightarrow> (string \<Rightarrow> real) \<Rightarrow> (string \<Rightarrow> real) \<Rightarrow> (string \<Rightarrow> real) \<Rightarrow> string \<Rightarrow> bool" where
  "loop_ready m fvs llu fv mv s \<longleftrightarrow>
     dict_get (last_local_update_times m) s = Some (llu s)
     \<and> (\<exists>a. dict_get fvs s = Some a \<and> as_number a = Some (fv s))
     \<and> (\<exists>b. dict_get (last_change_times m) s = Some b \<and> as_number b = Some (mv s))
     \<and> dict_get (dfs m) s \<noteq> None"

text \<open>The payload of a \<open>server_update\<close> event.\<close>

record server_update =
  su_source :: string
  su_version :: jval
  su_last_updated :: string

text \<open>\<open>last_emitted_versions\<close> as \<open>background_monitor\<close> starts with it.\<close>

definition initial_emitted_versions :: "jval dict" where
  "initial_emitted_versions = [(''IPS'', JNum 0), (''MTESS'', JNum 0)]"

text \<open>
  The loop of \<open>background_monitor\<close> over the sources, on the result of \<open>check_version\<close>.
  It gives \<open>last_emitted_versions\<close> after the loop, the events emitted and the exception
  that ended the loop early, if any. \<open>manager.dfs.get(source)\<close> is \<open>None\<close> for a source
  without a table, on which \<open>get_formatted_date\<close> raises AttributeError.
\<close>

fun emit_loop ::
  "(real \<Rightarrow> string) \<Rightarrow> manager \<Rightarrow> jval dict \<Rightarrow> string list \<Rightarrow> jval dict
     \<Rightarrow> jval dict \<times> server_update list \<times> error option" where
  "emit_loop fmt m current_times [] last_emitted_versions = (last_emitted_versions, [], None)"
| "emit_loop fmt m current_times (source # rest) last_emitted_versions =
     (case dict_get current_times source of
        None \<Rightarrow> (last_emitted_versions, [], Some KeyError)
      | Some cv \<Rightarrow>
          (case dict_get last_emitted_versions source of
             None \<Rightarrow> (last_emitted_versions, [], Some KeyError)
           | Some le \<Rightarrow>
               (case py_gt_plus cv le 0.001 of
                  Inl e \<Rightarrow> (last_emitted_versions, [], Some e)
                | Inr newer \<Rightarrow>
                    if newer then
                      (case dict_get (dfs m) source of
                         None \<Rightarrow> (last_emitted_versions, [], Some AttributeError)
                       | Some df_current \<Rightarrow>
                           (case emit_loop fmt m current_times rest
                                   (dict_set last_emitted_versions source cv) of
                              (lev, evs, err) \<Rightarrow>
                                (lev,
                                 \<lparr>su_source = source, su_version = cv,
                                  su_last_updated = get_formatted_date fmt df_current\<rparr> # evs,
                                 err)))
                    else emit_loop fmt m current_times rest last_emitted_versions)))"

text \<open>
  One pass of the body of \<open>while True\<close> in \<open>background_monitor\<close>, after the wait: the
  state is the manager and \<open>last_emitted_versions\<close>. An exception is caught and printed,
  and the loop goes on with the state reached.
\<close>

definition monitor_tick ::
  "(real \<Rightarrow> string) \<Rightarrow> tick_env \<Rightarrow> manager \<times> jval dict
     \<Rightarrow> (manager \<times> jval dict) \<times> server_update list \<times> error option" where
  "monitor_tick fmt env st =
     (case check_version env (fst st) of
        (m', Inl e) \<Rightarrow> ((m', snd st), [], Some e)
      | (m', Inr (current_times, updated_sources)) \<Rightarrow>
          (case emit_loop fmt m' current_times [''IPS'', ''MTESS''] (snd st) of
             (lev, evs, err) \<Rightarrow> ((m', lev), evs, err)))"


section \<open>The patch worker\<close>

text \<open>How one \<open>requests.patch\<close> ends: a response with a status code, or an exception.\<close>

datatype http_outcome = Code int | Exn

text \<open>
  A PATCH of \<open>.../items/{item_id}/fields\<close>: the item id as it is written into the URL and
  the value of the one field of the body.
\<close>

datatype patch_request = PatchStatus string string | PatchModificadoPor string string

text \<open>The lines the worker prints.\<close>

datatype log_line =
    LogMissingConnection
  | LogStarting nat
  | LogStatusUpdated string
  | LogModificadoPorUpdated string
  | LogModificadoPorFailed string
  | LogModificadoPorException
  | LogFailed string int
  | LogResponse string
  | LogException string
  | LogFinished

definition truthy :: "string option \<Rightarrow> bool" where
  "truthy s = (case s of None \<Rightarrow> False | Some x \<Rightarrow> x \<noteq> [])"

text \<open>
  The second step for one item, entered after the status patch returned 200:
  the requests made and the lines printed. \<open>a\<close> is how the attribution patch ends if it
  is made.
\<close>

definition patch_modifier ::
  "http_outcome \<Rightarrow> string \<Rightarrow> string option
     \<Rightarrow> (patch_request \<times> http_outcome) list \<times> log_line list" where
  "patch_modifier a item modifier_name =
     (case modifier_name of
        None \<Rightarrow> ([], [])
      | Some who \<Rightarrow>
          if who = [] then ([], [])
          else
            ([(PatchModificadoPor item who, a)],
             [case a of
                Exn \<Rightarrow> LogModificadoPorException
              | Code c \<Rightarrow>
                  if c = 200 then LogModificadoPorUpdated item
                  else LogModificadoPorFailed item]))"

text \<open>
  The loop of \<open>_patch_worker\<close> over \<open>item_ids\<close>. \<open>answers k\<close> is how the \<open>k\<close>-th request
  of the run ends and \<open>n\<close> counts the requests made so far. The result lists every
  request made, with how it ended, and the lines printed.
\<close>

fun patch_loop ::
  "(nat \<Rightarrow> http_outcome) \<Rightarrow> nat \<Rightarrow> string \<Rightarrow> string option \<Rightarrow> pyval list
     \<Rightarrow> (patch_request \<times> http_outcome) list \<times> log_line list" where
  "patch_loop answers n status modifier_name [] = ([], [])"
| "patch_loop answers n status modifier_name (item_id # rest) =
     (let item = str item_id in
      case answers n of
        Exn \<Rightarrow>
          (case patch_loop answers (Suc n) status modifier_name rest of
             (tr, lg) \<Rightarrow> ((PatchStatus item status, Exn) # tr, LogException item # lg))
      | Code c \<Rightarrow>
          if c = 200 then
            (case patch_modifier (answers (Suc n)) item modifier_name of
               (tr2, lg2) \<Rightarrow>
                 (case patch_loop answers (Suc n + length tr2) status modifier_name rest of
                    (tr, lg) \<Rightarrow>
                      ((PatchStatus item status, Code c) # tr2 @ tr,
                       LogStatusUpdated item # LogStatusUpdated item # lg2 @ lg)))
          else
            (case patch_loop answers (Suc n) status modifier_name rest of
               (tr, lg) \<Rightarrow>
                 ((PatchStatus item status, Code c) # tr,
                  LogFailed item c # LogResponse item # lg)))"

text \<open>
  \<open>_patch_worker\<close>. \<open>auth\<close> is the token \<open>_authenticate\<close> obtains, \<open>None\<close> when it fails
  and leaves \<open>access_token\<close> as it was.
\<close>

definition patch_worker ::
  "string option \<Rightarrow> (nat \<Rightarrow> http_outcome) \<Rightarrow> pyval list \<Rightarrow> string \<Rightarrow> string option
     \<Rightarrow> string \<Rightarrow> manager
     \<Rightarrow> manager \<times> (patch_request \<times> http_outcome) list \<times> log_line list" where
  "patch_worker auth answers item_ids status modifier_name source m =
     (let m1 = (case auth of None \<Rightarrow> m | Some tok \<Rightarrow> m\<lparr>access_token := Some tok\<rparr>);
          target_list_id = (case dict_get (list_ids m1) source of None \<Rightarrow> None | Some x \<Rightarrow> x)
      in if \<not> truthy (access_token m1) \<or> \<not> truthy (site_id m1) \<or> \<not> truthy target_list_id
         then (m1, [], [LogMissingConnection])
         else
           (case patch_loop answers 0 status modifier_name item_ids of
              (tr, lg) \<Rightarrow> (m1, tr, LogStarting (length item_ids) # lg @ [LogFinished])))"

text \<open>
  The two-step rule in the words of the specification, as a test on a run: for each item
  in turn, one status patch; the attribution patch right after it exactly when the status
  patch returned 200 and a modifier name was given; then the next item, whatever the
  outcomes were; nothing else.
\<close>

fun two_step_run ::
  "string \<Rightarrow> string option \<Rightarrow> pyval list \<Rightarrow> (patch_request \<times> http_outcome) list \<Rightarrow> bool" where
  "two_step_run status modifier_name [] tr = (tr = [])"
| "two_step_run status modifier_name (item_id # rest) [] = False"
| "two_step_run status modifier_name (item_id # rest) ((req, a) # tr) =
     (req = PatchStatus (str item_id) status \<and>
      (if a = Code 200 \<and> truthy modifier_name then
         (case tr of
            [] \<Rightarrow> False
          | (req2, a2) # tr2 \<Rightarrow>
              Some req2 = map_option (PatchModificadoPor (str item_id)) modifier_name \<and>
              two_step_run status modifier_name rest tr2)
       else two_step_run status modifier_name rest tr))"

fun is_status_patch :: "patch_request \<times> http_outcome \<Rightarrow> bool" where
  "is_status_patch (PatchStatus item v, a) = True"
| "is_status_patch (PatchModificadoPor item v, a) = False"

fun is_failed_modifier_patch :: "patch_request \<times> http_outcome \<Rightarrow> bool" where
  "is_failed_modifier_patch (PatchModificadoPor item v, a) = (a \<noteq> Code 200)"
| "is_failed_modifier_patch (PatchStatus item v, a) = False"

fun is_modifier_failure_line :: "log_line \<Rightarrow> bool" where
  "is_modifier_failure_line (LogModificadoPorFailed item) = True"
| "is_modifier_failure_line LogModificadoPorException = True"
| "is_modifier_failure_line _ = False"

section \<open>Presence\<close>

record user_info =
  ui_name :: "string option"
  ui_email :: "string option"
  ui_photo :: "string option"

datatype emitted =
    User_joined user_info
  | Presence_list "user_info list"
  | User_left user_info
  | Presence_update "user_info list"

definition same_email :: "user_info \<Rightarrow> user_info \<Rightarrow> bool" where
  "same_email a b = (ui_email a = ui_email b)"

text \<open>\<open>connected_users.pop(sid)\<close> on a dictionary that holds the key.\<close>

fun dict_pop :: "'v dict \<Rightarrow> string \<Rightarrow> 'v dict" where
  "dict_pop [] k = []"
| "dict_pop ((k', v') # d) k = (if k' = k then d else (k', v') # dict_pop d k)"

text \<open>
  \<open>handle_connect\<close>: \<open>sess\<close> and \<open>photo\<close> are the session's \<open>user\<close> and \<open>photo\<close> entries,
  \<open>sid\<close> is \<open>request.sid\<close>. It gives \<open>connected_users\<close> after the call, whether the
  connection is accepted, and what is emitted: \<open>User_joined\<close> goes to everyone but the
  caller, \<open>Presence_list\<close> to the caller only.
\<close>

definition handle_connect ::
  "session \<Rightarrow> string option \<Rightarrow> string \<Rightarrow> user_info dict
     \<Rightarrow> user_info dict \<times> bool \<times> emitted list" where
  "handle_connect sess photo sid connected_users =
     (case sess of
        None \<Rightarrow> (connected_users, False, [])
      | Some claims \<Rightarrow>
          if claims = [] then (connected_users, False, [])
          else
            (let info = \<lparr>ui_name = dict_get claims ''name'',
                         ui_email = dict_get claims ''preferred_username'',
                         ui_photo = photo\<rparr>;
                 is_new_person = \<not> list_ex (same_email info) (map snd connected_users);
                 connected_users' = dict_set connected_users sid info
             in (connected_users', True,
                 (if is_new_person then [User_joined info] else [])
                   @ [Presence_list (map snd connected_users')])))"

text \<open>\<open>handle_disconnect\<close>: both events are broadcast to all.\<close>

definition handle_disconnect :: "string \<Rightarrow> user_info dict \<Rightarrow> user_info dict \<times> emitted list" where
  "handle_disconnect sid connected_users =
     (case dict_get connected_users sid of
        None \<Rightarrow> (connected_users, [])
      | Some user \<Rightarrow>
          (let connected_users' = dict_pop connected_users sid;
               is_still_here = list_ex (same_email user) (map snd connected_users')
           in (connected_users',
               (if \<not> is_still_here then [User_left user] else [])
                 @ [Presence_update (map snd connected_users')])))"

fun is_joined :: "emitted \<Rightarrow> bool" where
  "is_joined (User_joined u) = True"
| "is_joined _ = False"

fun is_left :: "emitted \<Rightarrow> bool" where
  "is_left (User_left u) = True"
| "is_left _ = False"

text \<open>The \<open>user_info\<close> that \<open>handle_connect\<close> builds from the session.\<close>

definition claims_info :: "string dict \<Rightarrow> string option \<Rightarrow> user_info" where
  "claims_info claims photo =
     \<lparr>ui_name = dict_get claims ''name'', ui_email = dict_get claims ''preferred_username'',
      ui_photo = photo\<rparr>"

section \<open>Reading the cache through \<open>self.df\<close>\<close>

text \<open>
  \<open>self.df\<close>: the class assigns \<open>self.dfs\<close> and never \<open>self.df\<close>, so the attribute lookup
  raises AttributeError on every manager.
\<close>

definition self_df :: "manager \<Rightarrow> error + table" where
  "self_df m = Inl AttributeError"

definition col :: "row \<Rightarrow> string \<Rightarrow> string option" where
  "col r c = dict_get (cols r) c"

definition upper_char :: "char \<Rightarrow> char" where
  "upper_char c =
     (let n = (of_char c :: nat) in if 97 \<le> n \<and> n \<le> 122 then char_of (n - 32) else c)"

definition get_inconsistencies :: "manager \<Rightarrow> string \<Rightarrow> error + table" where
  "get_inconsistencies m source =
     (let df = dfs_get m source in
      if df = [] then Inr df
      else
        (case self_df m of
           Inl e \<Rightarrow> Inl e
         | Inr sdf \<Rightarrow>
             Inr (filter (\<lambda>r. col r ''AUD_ENTRADA'' \<noteq> Some ''COINCIDE''
                             \<or> col r ''AUD_ESTADO'' \<noteq> Some ''COINCIDE''
                             \<or> col r ''AUD_SALIDA'' \<noteq> Some ''COINCIDE'') sdf)))"

definition get_verified :: "manager \<Rightarrow> string \<Rightarrow> error + table" where
  "get_verified m source =
     (let df = dfs_get m source in
      if df = [] then Inr df
      else
        (case self_df m of
           Inl e \<Rightarrow> Inl e
         | Inr sdf \<Rightarrow> Inr (filter (\<lambda>r. map upper_char (REVISADO r) = ''REVISADO'') sdf)))"


section \<open>Example states\<close>

definition example_row :: "string \<Rightarrow> string \<Rightarrow> row" where
  "example_row i reviewed =
     \<lparr>num = 1, ID = PStr i, Modified = None, REVISADO = reviewed, ModificadoPor = [],
      cols = []\<rparr>"

text \<open>
  A manager whose \<open>IPS\<close> table is \<open>df\<close>, changed last at \<open>lct\<close>, edited locally last at
  \<open>llu\<close>, beside a version file holding \<open>f\<close>; the \<open>MTESS\<close> table is empty.
\<close>

definition example_manager :: "table \<Rightarrow> real \<Rightarrow> real \<Rightarrow> file_content \<Rightarrow> manager" where
  "example_manager df lct llu f =
     \<lparr>access_token = Some ''token'', site_id = Some ''site'',
      list_ids = [(''IPS'', Some ''list-ips''), (''MTESS'', Some ''list-mtess''),
                  (''WHITELIST'', None)],
      dfs = [(''IPS'', df), (''MTESS'', [])],
      last_change_times = [(''IPS'', JNum lct), (''MTESS'', JNum 0)],
      last_local_update_times = [(''IPS'', llu), (''MTESS'', 0)],
      version_json = f\<rparr>"

definition example_file :: "real \<Rightarrow> real \<Rightarrow> file_content" where
  "example_file a b = Json (JObj [(''IPS'', JNum a), (''MTESS'', JNum b)])"

definition fmt_plain :: "real \<Rightarrow> string" where
  "fmt_plain t = ''fecha''"

text \<open>A tick at time \<open>t\<close> whose fetches return no rows and whose writes succeed.\<close>

definition example_env :: "real \<Rightarrow> tick_env" where
  "example_env t =
     \<lparr>clock = (\<lambda>source. t),
      fetch_of = (\<lambda>source. \<lparr>fe_remote = Items [], fe_guard = t, fe_commit = t,
                              fe_write = Written\<rparr>)\<rparr>"

text \<open>The requests of a run answered from a list, and by an exception after its end.\<close>

definition answers_of :: "http_outcome list \<Rightarrow> nat \<Rightarrow> http_outcome" where
  "answers_of xs k = (if k < length xs then xs ! k else Exn)"

definition example_claims :: "string \<Rightarrow> string \<Rightarrow> string dict" where
  "example_claims n e = [(''name'', n), (''preferred_username'', e)]"


definition example_user :: "string \<Rightarrow> string \<Rightarrow> user_info" where
  "example_user n e = \<lparr>ui_name = Some n, ui_email = Some e, ui_photo = None\<rparr>"

section \<open>Lemmas on dictionaries\<close>

lemma dict_get_set: "dict_get (dict_set d k v) k' = (if k' = k then Some v else dict_get d k')"
  by (induction d) (auto simp: dict_get_def)

lemma dict_keys_set: "fst ` set (dict_set d k v) = insert k (fst ` set d)"
  by (induction d k v rule: dict_set.induct) (simp_all add: insert_commute)

lemma dict_keys_merge: "fst ` set (dict_merge a b) = fst ` set a \<union> fst ` set b"
  by (induction a b rule: dict_merge.induct) (auto simp: dict_keys_set)

lemma dict_get_merge_other:
  "k \<notin> fst ` set b \<Longrightarrow> dict_get (dict_merge a b) k = dict_get a k"
  by (induction a b rule: dict_merge.induct) (auto simp: dict_get_set)

lemma dict_get_None_iff: "dict_get d k = None \<longleftrightarrow> k \<notin> fst ` set d"
  by (simp add: dict_get_def map_of_eq_None_iff)

section \<open>Durable state: round trip and defaults\<close>

text \<open>
  C6. Saving \<open>{"IPS": 100.0, "MTESS": 50.0}\<close> and reading it back gives the same mapping;
  a file holding only \<open>{"version": 7}\<close> reads as \<open>{"IPS": 0, "MTESS": 0}\<close>; and whatever the
  file holds, the reader returns a dictionary in which a dataset key that the file does not
  give is bound to 0 (the reader has no error result at all).
\<close>

theorem read_state_roundtrip_and_defaults:
  "read_state (save_state Written [(''IPS'', JNum 100), (''MTESS'', JNum 50)] f)
     = [(''IPS'', JNum 100), (''MTESS'', JNum 50)]
   \<and> read_state (Json (JObj [(''version'', JNum 7)])) = [(''IPS'', JNum 0), (''MTESS'', JNum 0)]
   \<and> (\<forall>kvs k. k \<in> {''IPS'', ''MTESS''} \<and> k \<notin> fst ` set kvs
         \<longrightarrow> dict_get (read_state (Json (JObj kvs))) k = Some (JNum 0))
   \<and> (\<forall>g k. k \<in> {''IPS'', ''MTESS''} \<longrightarrow> dict_get (read_state g) k \<noteq> None)"
proof (intro conjI allI impI)
  show "read_state (save_state Written [(''IPS'', JNum 100), (''MTESS'', JNum 50)] f)
     = [(''IPS'', JNum 100), (''MTESS'', JNum 50)]"
    by (simp add: read_state_def save_state_def default_state_def)
  show "read_state (Json (JObj [(''version'', JNum 7)])) = [(''IPS'', JNum 0), (''MTESS'', JNum 0)]"
    by (simp add: read_state_def default_state_def)
next
  fix kvs :: "jval dict" and k
  assume h: "k \<in> {''IPS'', ''MTESS''} \<and> k \<notin> fst ` set kvs"
  then have "dict_get (dict_merge default_state kvs) k = dict_get default_state k"
    by (simp add: dict_get_merge_other)
  with h show "dict_get (read_state (Json (JObj kvs))) k = Some (JNum 0)"
    by (auto simp: read_state_def default_state_def dict_get_def)
next
  fix g k
  assume h: "k \<in> {''IPS'', ''MTESS''}"
  have d: "k \<in> fst ` set default_state"
    using h by (auto simp: default_state_def)
  then have "k \<in> fst ` set (read_state g)"
    by (auto simp: read_state_def dict_keys_merge split: file_content.splits jval.splits)
  then show "dict_get (read_state g) k \<noteq> None"
    by (simp add: dict_get_None_iff)
qed

theorem read_state_roundtrip_and_defaults_witness:
  "''MTESS'' \<in> {''IPS'', ''MTESS''} \<and> ''MTESS'' \<notin> fst ` set [(''IPS'', JNum 3)]
   \<and> dict_get (read_state (Json (JObj [(''IPS'', JNum 3)]))) ''MTESS'' = Some (JNum 0)
   \<and> dict_get (read_state (Json (JObj [(''IPS'', JNum 3)]))) ''IPS'' = Some (JNum 3)"
  using read_state_roundtrip_and_defaults [of Absent]
  by (simp add: read_state_def default_state_def dict_get_def)


section \<open>Durable state: what a failed write leaves\<close>

text \<open>
  C7, as the code has it. \<open>_save_state\<close> writes the file in place. A write that cannot open
  the file leaves it as it was. A write that fails after \<open>open\<close> has truncated the file
  leaves text that does not decode, which the reader takes for no prior state: it returns
  the defaults and raises nothing. A write that completes leaves the mapping written.
\<close>

theorem save_state_failure_modes:
  "save_state OpenFailed d f = f
   \<and> save_state DumpFailed d f = Invalid
   \<and> read_state (save_state DumpFailed d f) = default_state
   \<and> save_state Written d f = Json (JObj d)
   \<and> (''version'' \<notin> fst ` set d
        \<longrightarrow> read_state (save_state Written d f) = dict_merge default_state d)"
  by (simp add: save_state_def read_state_def)

theorem save_state_failure_modes_witness:
  "''version'' \<notin> fst ` set [(''IPS'', JNum 200), (''MTESS'', JNum 50)]
   \<and> read_state (save_state Written [(''IPS'', JNum 200), (''MTESS'', JNum 50)] (example_file 100 50))
       = [(''IPS'', JNum 200), (''MTESS'', JNum 50)]
   \<and> read_state (save_state OpenFailed [(''IPS'', JNum 200), (''MTESS'', JNum 50)] (example_file 100 50))
       = [(''IPS'', JNum 100), (''MTESS'', JNum 50)]"
  using save_state_failure_modes [of "[(''IPS'', JNum 200), (''MTESS'', JNum 50)]" "example_file 100 50"]
  by (simp add: default_state_def example_file_def read_state_def)

text \<open>
  The claim as stated fails: the file holds \<open>{"IPS": 100, "MTESS": 50}\<close>, a write fails
  inside \<open>json.dump\<close>, and the next read gives \<open>{"IPS": 0, "MTESS": 0}\<close>.
\<close>

theorem failed_write_loses_state_counterexample:
  "read_state (example_file 100 50) = [(''IPS'', JNum 100), (''MTESS'', JNum 50)]
   \<and> save_state DumpFailed [(''IPS'', JNum 200), (''MTESS'', JNum 50)] (example_file 100 50) = Invalid
   \<and> read_state (save_state DumpFailed [(''IPS'', JNum 200), (''MTESS'', JNum 50)] (example_file 100 50))
       = [(''IPS'', JNum 0), (''MTESS'', JNum 0)]"
  by (simp add: save_state_def read_state_def default_state_def example_file_def)

section \<open>Local edits\<close>

lemma str_int_123: "str_int 123 = ''123''"
  by (simp add: str_int_def str_nat.simps digit_char_def)

lemma update_rows:
  "r \<in> set (dfs_get (update_status_by_ids S v who D now_ts now wo m) D) \<Longrightarrow> isin (map str S) r
     \<Longrightarrow> REVISADO r = v"
  by (auto simp: update_status_by_ids_def dfs_get_def Let_def save_times_def dict_get_set list_ex_iff isin_def split: option.splits if_splits)

lemma update_ids:
  "map ID (dfs_get (update_status_by_ids S v who D now_ts now wo m) D) = map ID (dfs_get m D)"
  by (auto simp: update_status_by_ids_def dfs_get_def Let_def save_times_def dict_get_set list_ex_iff isin_def split: option.splits)

lemma update_llu:
  assumes "list_ex (isin (map str S)) (dfs_get m D)"
  shows "dict_get (last_local_update_times (update_status_by_ids S v who D now_ts now wo m)) D = Some now"
  using assms
  by (auto simp: update_status_by_ids_def dfs_get_def Let_def save_times_def dict_get_set  split: option.splits)

lemma update_cached:
  assumes "dict_get (dfs m) D \<noteq> None"
  shows "dict_get (dfs (update_status_by_ids S v who D now_ts now wo m)) D \<noteq> None"
  using assms
  by (auto simp: update_status_by_ids_def dfs_get_def Let_def save_times_def dict_get_set  split: option.splits)

lemma match_cached: "list_ex P (dfs_get m D) \<Longrightarrow> dict_get (dfs m) D \<noteq> None"
  by (auto simp: dfs_get_def split: option.splits)

lemma fetch_guard:
  assumes "dict_get (last_local_update_times m) D = Some llu" "t_guard - llu < 5" "dict_get (dfs m) D \<noteq> None"
  shows "fetch_data D (Items rows) t_guard t_commit wo m = (m, Inr (dfs_get m D))"
  using assms by (auto simp: fetch_data_def dfs_get_def)

lemma update_nomatch:
  assumes "\<not> list_ex (isin (map str S)) (dfs_get m D)"
  shows "update_status_by_ids S v who D now_ts now wo m = m"
  using assms
  by (auto simp: update_status_by_ids_def dfs_get_def Let_def split: option.splits)

lemma update_same_str:
  assumes "map str S = map str S'"
  shows "update_status_by_ids S v who D now_ts now wo m = update_status_by_ids S' v who D now_ts now wo m"
  unfolding update_status_by_ids_def assms by (rule refl)

text \<open>
  C1. After \<open>update_status_by_ids\<close> every cached row of the dataset whose identifier
  is among the given ones has the new review value, and the rows are the same ones as
  before. When the edit matched a row, a \<open>fetch_data\<close> of that dataset whose race guard is
  evaluated less than 5 seconds after the edit's time stamp leaves the manager as it is and
  returns the cached table, whatever rows it fetched.
\<close>

theorem no_lost_edit:
  assumes edit: "m' = update_status_by_ids S v who D now_ts now wo m"
  shows "(\<forall>r \<in> set (dfs_get m' D). isin (map str S) r \<longrightarrow> REVISADO r = v)
       \<and> map ID (dfs_get m' D) = map ID (dfs_get m D)
       \<and> (list_ex (isin (map str S)) (dfs_get m D) \<and> t_guard - now < 5
            \<longrightarrow> fetch_data D (Items rows) t_guard t_commit wo' m' = (m', Inr (dfs_get m' D)))"
proof (intro conjI ballI impI)
  fix r
  assume "r \<in> set (dfs_get m' D)" and "isin (map str S) r"
  then show "REVISADO r = v"
    unfolding edit by (rule update_rows)
next
  show "map ID (dfs_get m' D) = map ID (dfs_get m D)"
    unfolding edit by (rule update_ids)
next
  assume h: "list_ex (isin (map str S)) (dfs_get m D) \<and> t_guard - now < 5"
  then have llu: "dict_get (last_local_update_times m') D = Some now"
    unfolding edit by (simp add: update_llu)
  have "dict_get (dfs m') D \<noteq> None"
    unfolding edit using h by (intro update_cached match_cached [of "isin (map str S)"]) simp
  with llu h show "fetch_data D (Items rows) t_guard t_commit wo' m' = (m', Inr (dfs_get m' D))"
    by (intro fetch_guard [where llu = now]) simp_all
qed

theorem no_lost_edit_witness:
  "map REVISADO (dfs_get (update_status_by_ids [PInt 55] ''REVISADO'' (Some ''Ana'') ''IPS'' 1000 1000 Written
       (example_manager [example_row ''55'' ''PENDIENTE''] 900 0 (example_file 900 0))) ''IPS'') = [''REVISADO'']
   \<and> fst (fetch_data ''IPS'' (Items [example_row ''55'' ''PENDIENTE'']) 1002 1002 Written
       (update_status_by_ids [PInt 55] ''REVISADO'' (Some ''Ana'') ''IPS'' 1000 1000 Written
         (example_manager [example_row ''55'' ''PENDIENTE''] 900 0 (example_file 900 0))))
     = update_status_by_ids [PInt 55] ''REVISADO'' (Some ''Ana'') ''IPS'' 1000 1000 Written
         (example_manager [example_row ''55'' ''PENDIENTE''] 900 0 (example_file 900 0))"
  using no_lost_edit [OF refl, of "[PInt 55]" "''REVISADO''" "Some ''Ana''" "''IPS''" 1000 1000 Written
      "example_manager [example_row ''55'' ''PENDIENTE''] 900 0 (example_file 900 0)" 1002
      "[example_row ''55'' ''PENDIENTE'']" 1002 Written]
  by (simp add: update_status_by_ids_def example_manager_def example_row_def example_file_def
      dfs_get_def dict_get_def isin_def str_int_def str_nat.simps digit_char_def Let_def save_times_def save_state_def)

text \<open>
  C4, as the code has it. An edit whose identifiers match no cached row leaves the manager
  as it is: the table, both time stamps and the version file, whichever way a write would
  have ended; the function has no error result. The request handler then answers with
  success and a count that is the number of identifiers in the request.
\<close>

theorem zero_match_edit_is_noop:
  assumes nomatch: "\<not> list_ex (isin (map str S)) (dfs_get m D)"
  shows "update_status_by_ids S v who D now_ts now wo m = m
       \<and> (claims \<noteq> [] \<and> S \<noteq> [] \<and> dict_get (dfs m) D \<noteq> None
            \<longrightarrow> fst (update_status (Some claims) S v D fmt now_ts now wo m) = m
              \<and> fst (snd (update_status (Some claims) S v D fmt now_ts now wo m))
                  = Success (length S) (get_formatted_date fmt (dfs_get m D)))"
  using update_nomatch [OF nomatch]
  by (auto simp: update_status_def dfs_get_def Let_def split: option.splits)

theorem zero_match_edit_is_noop_witness:
  "update_status_by_ids [PStr ''doesnotexist''] ''REVISADO'' (Some ''Ana'') ''IPS'' 1000 1000 DumpFailed
       (example_manager [example_row ''1'' ''PENDIENTE''] 900 0 (example_file 900 0))
     = example_manager [example_row ''1'' ''PENDIENTE''] 900 0 (example_file 900 0)
   \<and> fst (update_status (Some (example_claims ''Ana'' ''ana@prodato.com.py''))
         [PStr ''doesnotexist''] ''REVISADO'' ''IPS'' fmt_plain 1000 1000 DumpFailed
         (example_manager [example_row ''1'' ''PENDIENTE''] 900 0 (example_file 900 0)))
     = example_manager [example_row ''1'' ''PENDIENTE''] 900 0 (example_file 900 0)"
  using zero_match_edit_is_noop [where S = "[PStr ''doesnotexist'']"
      and m = "example_manager [example_row ''1'' ''PENDIENTE''] 900 0 (example_file 900 0)"
      and D = "''IPS''" and v = "''REVISADO''" and who = "Some ''Ana''" and now_ts = 1000
      and now = 1000 and wo = DumpFailed
      and claims = "example_claims ''Ana'' ''ana@prodato.com.py''" and fmt = fmt_plain]
  by (simp add: example_manager_def example_row_def example_claims_def dfs_get_def dict_get_def
      isin_def)

text \<open>
  The claim as stated fails on the count: one identifier that matches no row is answered
  with the count 1.
\<close>

theorem zero_match_count_counterexample:
  "\<not> list_ex (isin (map str [PStr ''doesnotexist'']))
        (dfs_get (example_manager [example_row ''1'' ''PENDIENTE''] 900 0 (example_file 900 0)) ''IPS'')
   \<and> fst (snd (update_status (Some (example_claims ''Ana'' ''ana@prodato.com.py''))
         [PStr ''doesnotexist''] ''REVISADO'' ''IPS'' fmt_plain 1000 1000 Written
         (example_manager [example_row ''1'' ''PENDIENTE''] 900 0 (example_file 900 0))))
       = Success 1 ''Desconocido''"
  by (simp add: update_status_def update_status_by_ids_def example_manager_def example_row_def
      example_claims_def dfs_get_def dict_get_def isin_def Let_def get_formatted_date_def
      List.map_filter_def)

text \<open>
  C5. The integer 123 and the string \<open>"123"\<close> have the same text, select the same rows
  and lead to the same manager; in general two identifier lists with the same texts do.
\<close>

theorem string_and_integer_ids_match_alike:
  "str (PInt 123) = ''123''
   \<and> isin (map str [PInt 123]) r = isin (map str [PStr ''123'']) r
   \<and> update_status_by_ids [PInt 123] v who D now_ts now wo m
       = update_status_by_ids [PStr ''123''] v who D now_ts now wo m
   \<and> (map str S = map str S'
        \<longrightarrow> update_status_by_ids S v who D now_ts now wo m
          = update_status_by_ids S' v who D now_ts now wo m)"
proof -
  have e: "map str [PInt 123] = map str [PStr ''123'']"
    by (simp add: str_int_123)
  show ?thesis
    using update_same_str [OF e] update_same_str [of S S']
    by (simp add: str_int_123)
qed

theorem string_and_integer_ids_match_alike_witness:
  "map str [PInt 7, PStr ''8''] = map str [PStr ''7'', PInt 8]
   \<and> map REVISADO (dfs_get (update_status_by_ids [PInt 123] ''REVISADO'' None ''IPS'' 1000 1000 Written
       (example_manager [example_row ''123'' ''PENDIENTE'', example_row ''12'' ''PENDIENTE''] 900 0 (example_file 900 0))) ''IPS'')
       = [''REVISADO'', ''PENDIENTE'']
   \<and> map REVISADO (dfs_get (update_status_by_ids [PStr ''123''] ''REVISADO'' None ''IPS'' 1000 1000 Written
       (example_manager [example_row ''123'' ''PENDIENTE'', example_row ''12'' ''PENDIENTE''] 900 0 (example_file 900 0))) ''IPS'')
       = [''REVISADO'', ''PENDIENTE'']"
  using string_and_integer_ids_match_alike [of "example_row ''123'' ''PENDIENTE''" "''REVISADO''" None "''IPS''" 1000 1000 Written
      "example_manager [example_row ''123'' ''PENDIENTE'', example_row ''12'' ''PENDIENTE''] 900 0 (example_file 900 0)"
      "[PInt 7, PStr ''8'']" "[PStr ''7'', PInt 8]"]
  by (simp add: update_status_by_ids_def example_manager_def example_row_def example_file_def
      dfs_get_def dict_get_def isin_def str_int_def str_nat.simps digit_char_def Let_def save_times_def save_state_def)


section \<open>The refresh condition of the reconciliation tick\<close>

lemmas example_defs = example_manager_def example_row_def example_file_def example_env_def
  fmt_plain_def example_claims_def

lemmas tick_defs = check_version_def read_state_def default_state_def dict_get_def py_gt_plus_def
  fetch_data_def add_index_def save_times_def save_state_def Let_def

lemma fetch_data_preserves:
  assumes "fetch_data s rr tg tc wo m = (m', r)"
  shows "last_local_update_times m' = last_local_update_times m"
    and "k \<noteq> s \<Longrightarrow> dict_get (last_change_times m') k = dict_get (last_change_times m) k"
    and "dict_get (dfs m) k \<noteq> None \<Longrightarrow> dict_get (dfs m') k \<noteq> None"
    and "dict_get (dfs m) s \<noteq> None \<Longrightarrow> \<exists>df. r = Inr df"
  using assms
  by (auto simp: fetch_data_def Let_def save_times_def dict_get_set
      split: remote_result.splits option.splits if_splits)

lemma loop_ready_fetch:
  assumes "fetch_data s rr tg tc wo m = (m', r)" "loop_ready m fvs llu fv mv k" "k \<noteq> s"
  shows "loop_ready m' fvs llu fv mv k"
  using assms fetch_data_preserves [OF assms(1)]
  by (simp add: loop_ready_def)

lemma check_version_loop_updated:
  assumes "distinct srcs" and "\<forall>s\<in>set srcs. loop_ready m fvs llu fv mv s"
  shows "\<exists>m' upd'. check_version_loop env fvs srcs m upd = (m', Inr (upd @ upd'))
           \<and> set upd' = {s \<in> set srcs. \<not> clock env s - llu s < 5 \<and> fv s > mv s + 0.1}"
  using assms
proof (induction srcs arbitrary: m upd)
  case Nil
  then show ?case by simp
next
  case (Cons s srcs)
  have rs: "loop_ready m fvs llu fv mv s"
    using Cons.prems by simp
  have rest: "\<forall>k\<in>set srcs. loop_ready m fvs llu fv mv k" and ds: "distinct srcs" and ns: "s \<notin> set srcs"
    using Cons.prems by simp_all
  show ?case
  proof (cases "\<not> clock env s - llu s < 5 \<and> fv s > mv s + 0.1")
    case False
    have step: "check_version_loop env fvs (s # srcs) m upd = check_version_loop env fvs srcs m upd"
      using rs False by (auto simp: loop_ready_def py_gt_plus_def)
    from Cons.IH [OF ds rest, of upd] obtain m' upd' where
      r: "check_version_loop env fvs srcs m upd = (m', Inr (upd @ upd'))"
         "set upd' = {k \<in> set srcs. \<not> clock env k - llu k < 5 \<and> fv k > mv k + 0.1}"
      by blast
    show ?thesis
      using r False ns unfolding step by (intro exI [of _ m'] exI [of _ upd']) auto
  next
    case True
    let ?fe = "fetch_of env s"
    obtain m1 r1 where f: "fetch_data s (fe_remote ?fe) (fe_guard ?fe) (fe_commit ?fe) (fe_write ?fe) m = (m1, r1)"
      by (cases "fetch_data s (fe_remote ?fe) (fe_guard ?fe) (fe_commit ?fe) (fe_write ?fe) m")
    from fetch_data_preserves(4) [OF f] rs obtain df where r1: "r1 = Inr df"
      by (auto simp: loop_ready_def)
    have step: "check_version_loop env fvs (s # srcs) m upd = check_version_loop env fvs srcs m1 (upd @ [s])"
      using rs True f r1 by (auto simp: loop_ready_def py_gt_plus_def Let_def)
    have rest1: "\<forall>k\<in>set srcs. loop_ready m1 fvs llu fv mv k"
      using rest ns loop_ready_fetch [OF f] by blast
    from Cons.IH [OF ds rest1, of "upd @ [s]"] obtain m' upd' where
      r: "check_version_loop env fvs srcs m1 (upd @ [s]) = (m', Inr ((upd @ [s]) @ upd'))"
         "set upd' = {k \<in> set srcs. \<not> clock env k - llu k < 5 \<and> fv k > mv k + 0.1}"
      by blast
    show ?thesis
      using r True unfolding step by (intro exI [of _ m'] exI [of _ "s # upd'"]) auto
  qed
qed

text \<open>
  C2, as the code has it. On a tick, with the persisted time stamps read once from the
  version file and all time stamps numbers, \<open>check_version\<close> ends without an exception and
  \<open>fetch_data\<close> is called for a dataset (the dataset is listed in \<open>updated_sources\<close>)
  exactly when the dataset is out of its grace period, that is, the clock is not less than
  5 seconds after its last local edit, and the persisted value exceeds the cached value
  plus 0.1. So a persisted value that does not exceed cached + 0.1 never triggers a refresh.
\<close>

theorem check_version_refresh_condition:
  assumes "\<forall>s \<in> {''IPS'', ''MTESS''}.
             dict_get (last_local_update_times m) s = Some (llu s)
             \<and> (\<exists>a. dict_get (read_state (version_json m)) s = Some a \<and> as_number a = Some (fv s))
             \<and> (\<exists>b. dict_get (last_change_times m) s = Some b \<and> as_number b = Some (mv s))
             \<and> dict_get (dfs m) s \<noteq> None"
  shows "\<exists>m' updated_sources.
           check_version env m = (m', Inr (last_change_times m', updated_sources))
           \<and> (\<forall>s \<in> {''IPS'', ''MTESS''}.
                 s \<in> set updated_sources
                   \<longleftrightarrow> \<not> clock env s - llu s < 5 \<and> fv s > mv s + 0.1)"
proof -
  have "\<forall>s\<in>set [''IPS'', ''MTESS'']. loop_ready m (read_state (version_json m)) llu fv mv s"
    using assms by (simp add: loop_ready_def)
  from check_version_loop_updated [OF _ this, of env "[]"] obtain m' upd' where
    r: "check_version_loop env (read_state (version_json m)) [''IPS'', ''MTESS''] m [] = (m', Inr upd')"
       "set upd' = {s \<in> set [''IPS'', ''MTESS'']. \<not> clock env s - llu s < 5 \<and> fv s > mv s + 0.1}"
    by auto
  show ?thesis
    using r by (intro exI [of _ m'] exI [of _ upd']) (auto simp: check_version_def)
qed

theorem check_version_refresh_condition_witness:
  "snd (check_version (example_env 1000) (example_manager [] 100 0 (example_file 200 0)))
     = Inr ([(''IPS'', JNum 1000), (''MTESS'', JNum 0)], [''IPS''])"
  using check_version_refresh_condition [of "example_manager [] 100 0 (example_file 200 0)"
      "\<lambda>s. 0" "\<lambda>s. if s = ''IPS'' then 200 else 0" "\<lambda>s. if s = ''IPS'' then 100 else 0"
      "example_env 1000"]
  by (simp add: example_defs tick_defs)

text \<open>
  The claim as stated fails inside the grace period: a local edit at 100, a persisted value
  101 written by another process, and a tick at 102 refresh nothing, though 101 exceeds
  100 + 0.1.
\<close>

theorem grace_period_suppresses_refresh_counterexample:
  "(101::real) > 100 + 0.1
   \<and> snd (check_version (example_env 102)
            (example_manager [example_row ''1'' ''REVISADO''] 100 100 (example_file 101 0)))
       = Inr ([(''IPS'', JNum 100), (''MTESS'', JNum 0)], [])"
  by (simp add: example_defs tick_defs)

section \<open>Broadcasts of the monitor loop\<close>

lemma py_gt_plus_True:
  "py_gt_plus a b eps = Inr True
     \<longleftrightarrow> (\<exists>x y. as_number a = Some x \<and> as_number b = Some y \<and> x > y + eps)"
  by (auto simp: py_gt_plus_def split: option.splits)

lemma py_gt_plus_self: "py_gt_plus v v 0.001 \<noteq> Inr True"
  by (auto simp: py_gt_plus_def split: option.splits)

lemma emit_loop_other_keys:
  "emit_loop fmt m ct srcs lev = (lev', evs, err) \<Longrightarrow> s \<notin> set srcs
     \<Longrightarrow> dict_get lev' s = dict_get lev s"
proof (induction srcs arbitrary: lev lev' evs err)
  case Nil
  then show ?case by simp
next
  case (Cons x srcs)
  then show ?case
    by (auto simp: dict_get_set split: option.splits sum.splits if_splits prod.splits)
qed

lemma emit_loop_sources:
  "emit_loop fmt m ct srcs lev = (lev', evs, err) \<Longrightarrow> distinct srcs
     \<Longrightarrow> set (map su_source evs) \<subseteq> set srcs \<and> distinct (map su_source evs)"
proof (induction srcs arbitrary: lev lev' evs err)
  case Nil
  then show ?case by simp
next
  case (Cons x srcs)
  then show ?case
    by (fastforce split: option.splits sum.splits if_splits prod.splits)
qed

lemma emit_loop_event:
  "emit_loop fmt m ct srcs lev = (lev', evs, err) \<Longrightarrow> distinct srcs \<Longrightarrow> e \<in> set evs
     \<Longrightarrow> dict_get ct (su_source e) = Some (su_version e)
       \<and> dict_get lev' (su_source e) = Some (su_version e)
       \<and> (\<exists>le. dict_get lev (su_source e) = Some le
               \<and> py_gt_plus (su_version e) le 0.001 = Inr True)"
proof (induction srcs arbitrary: lev lev' evs err)
  case Nil
  then show ?case by simp
next
  case (Cons x srcs)
  have ds: "distinct srcs" and nx: "x \<notin> set srcs"
    using Cons.prems(2) by simp_all
  from Cons.prems(1,3) obtain cv le where
    cv: "dict_get ct x = Some cv" and le: "dict_get lev x = Some le"
    by (auto split: option.splits)
  from Cons.prems(1,3) cv le obtain newer where nw: "py_gt_plus cv le 0.001 = Inr newer"
    by (auto split: sum.splits)
  show ?case
  proof (cases newer)
    case False
    then have "emit_loop fmt m ct srcs lev = (lev', evs, err)"
      using Cons.prems(1) cv le nw by simp
    from Cons.IH [OF this ds Cons.prems(3)] show ?thesis .
  next
    case True
    from Cons.prems(1,3) cv le nw True obtain df where df: "dict_get (dfs m) x = Some df"
      by (auto split: option.splits)
    obtain l1 evs1 err1 where
      rec: "emit_loop fmt m ct srcs (dict_set lev x cv) = (l1, evs1, err1)"
      by (cases "emit_loop fmt m ct srcs (dict_set lev x cv)") auto
    have res: "lev' = l1"
      "evs = \<lparr>su_source = x, su_version = cv, su_last_updated = get_formatted_date fmt df\<rparr> # evs1"
      using Cons.prems(1) cv le nw True df rec by simp_all
    show ?thesis
    proof (cases "e \<in> set evs1")
      case True
      note IH = Cons.IH [OF rec ds True]
      have "su_source e \<in> set srcs"
        using emit_loop_sources [OF rec ds] True by auto
      then have "su_source e \<noteq> x"
        using nx by auto
      then show ?thesis
        using IH res by (simp add: dict_get_set)
    next
      case False
      then have e: "e = \<lparr>su_source = x, su_version = cv, su_last_updated = get_formatted_date fmt df\<rparr>"
        using Cons.prems(3) res by simp
      have "dict_get l1 x = Some cv"
        using emit_loop_other_keys [OF rec nx] by (simp add: dict_get_set)
      then show ?thesis
        using e cv le nw True res by simp
    qed
  qed
qed

lemma emit_loop_silent:
  "emit_loop fmt m ct srcs lev = (lev', evs, err) \<Longrightarrow> dict_get lev s = dict_get ct s
     \<Longrightarrow> s \<notin> su_source ` set evs"
proof (induction srcs arbitrary: lev lev' evs err)
  case Nil
  then show ?case by simp
next
  case (Cons x srcs)
  show ?case
  proof (cases "x = s")
    case True
    then show ?thesis
      using Cons.prems Cons.IH [of lev] py_gt_plus_self
      by (auto split: option.splits sum.splits if_splits prod.splits)
  next
    case False
    then show ?thesis
      using Cons.prems Cons.IH [of lev] Cons.IH [of "dict_set lev x (the (dict_get ct x))"]
      by (auto simp: dict_get_set split: option.splits sum.splits if_splits prod.splits)
  qed
qed

lemma count_le_one: "distinct (map f xs) \<Longrightarrow> length (filter (\<lambda>e. f e = s) xs) \<le> Suc 0"
  by (induction xs) (auto simp: filter_empty_conv image_iff)

lemma check_version_times:
  "check_version env m = (m', Inr (ct, upd)) \<Longrightarrow> ct = last_change_times m'"
  by (auto simp: check_version_def split: prod.splits sum.splits)

lemma monitor_tick_cases:
  assumes "monitor_tick fmt env (m, lev) = ((m', lev'), evs, err)"
  shows "(evs = [] \<and> lev' = lev)
       \<or> emit_loop fmt m' (last_change_times m') [''IPS'', ''MTESS''] lev = (lev', evs, err)"
proof (cases "check_version env m")
  case (Pair m1 r)
  show ?thesis
  proof (cases r)
    case (Inl e)
    then show ?thesis using assms Pair by (simp add: monitor_tick_def)
  next
    case (Inr p)
    obtain ct upd where p: "p = (ct, upd)" by (cases p)
    have ct: "ct = last_change_times m1"
      using check_version_times Pair Inr p by blast
    show ?thesis
      using assms Pair Inr p ct by (auto simp: monitor_tick_def split: prod.splits)
  qed
qed

text \<open>
  C3. Every event a tick emits is for a dataset whose current version exceeds the version
  last broadcast for it by more than 0.001, and the tick records that version as the last
  broadcast one. Two ticks in a row with the same last-change time stamps after both
  emit at most one event for each dataset.
\<close>

theorem idempotent_broadcast:
  assumes t1: "monitor_tick fmt env1 (m0, lev0) = ((m1, lev1), evs1, err1)"
      and t2: "monitor_tick fmt env2 (m1, lev1) = ((m2, lev2), evs2, err2)"
      and same: "last_change_times m2 = last_change_times m1"
  shows "(\<forall>e \<in> set evs1.
            dict_get (last_change_times m1) (su_source e) = Some (su_version e)
            \<and> dict_get lev1 (su_source e) = Some (su_version e)
            \<and> (\<exists>le x y. dict_get lev0 (su_source e) = Some le
                    \<and> as_number (su_version e) = Some x \<and> as_number le = Some y
                    \<and> x > y + 0.001))
       \<and> (\<forall>s. length (filter (\<lambda>e. su_source e = s) (evs1 @ evs2)) \<le> 1)"
proof -
 have part1: "dict_get (last_change_times m1) (su_source e) = Some (su_version e)
            \<and> dict_get lev1 (su_source e) = Some (su_version e)
            \<and> (\<exists>le x y. dict_get lev0 (su_source e) = Some le
                    \<and> as_number (su_version e) = Some x \<and> as_number le = Some y
                    \<and> x > y + 0.001)" if e: "e \<in> set evs1" for e
 proof -
  from e have "emit_loop fmt m1 (last_change_times m1) [''IPS'', ''MTESS''] lev0 = (lev1, evs1, err1)"
    using monitor_tick_cases [OF t1] by auto
  from emit_loop_event [OF this _ e]
  show ?thesis
    by (simp add: py_gt_plus_True)
 qed
 have part2: "length (filter (\<lambda>e. su_source e = s) (evs1 @ evs2)) \<le> 1" for s
 proof -
  have c1: "length (filter (\<lambda>e. su_source e = s) evs1) \<le> Suc 0"
    using monitor_tick_cases [OF t1] emit_loop_sources [of fmt m1 "last_change_times m1" "[''IPS'', ''MTESS'']" lev0 lev1 evs1 err1]
    by (auto intro: count_le_one)
  have c2: "length (filter (\<lambda>e. su_source e = s) evs2) \<le> Suc 0"
    using monitor_tick_cases [OF t2] emit_loop_sources [of fmt m2 "last_change_times m2" "[''IPS'', ''MTESS'']" lev1 lev2 evs2 err2]
    by (auto intro: count_le_one)
  show ?thesis
  proof (cases "s \<in> su_source ` set evs1")
    case False
    then have "filter (\<lambda>e. su_source e = s) evs1 = []"
      by (auto simp: filter_empty_conv)
    then show ?thesis using c2 by simp
  next
    case True
    then obtain e where e: "e \<in> set evs1" "su_source e = s" by auto
    then have l1: "emit_loop fmt m1 (last_change_times m1) [''IPS'', ''MTESS''] lev0 = (lev1, evs1, err1)"
      using monitor_tick_cases [OF t1] by auto
    from emit_loop_event [OF l1 _ e(1)] e(2)
    have eq: "dict_get lev1 s = dict_get (last_change_times m2) s"
      by (simp add: same)
    have "s \<notin> su_source ` set evs2"
    proof (cases "evs2 = []")
      case True
      then show ?thesis by simp
    next
      case False
      then have "emit_loop fmt m2 (last_change_times m2) [''IPS'', ''MTESS''] lev1 = (lev2, evs2, err2)"
        using monitor_tick_cases [OF t2] by auto
      from emit_loop_silent [OF this eq] show ?thesis .
    qed
    then have "filter (\<lambda>e. su_source e = s) evs2 = []"
      by (auto simp: filter_empty_conv)
    then show ?thesis using c1 by simp
  qed
 qed
 show ?thesis
   using part1 part2 by blast
qed

theorem idempotent_broadcast_witness:
  "monitor_tick fmt_plain (example_env 1001)
       (example_manager [example_row ''1'' ''REVISADO''] 1000 1000 (example_file 1000 0),
        initial_emitted_versions)
     = ((example_manager [example_row ''1'' ''REVISADO''] 1000 1000 (example_file 1000 0),
         [(''IPS'', JNum 1000), (''MTESS'', JNum 0)]),
        [\<lparr>su_source = ''IPS'', su_version = JNum 1000, su_last_updated = ''Desconocido''\<rparr>], None)
   \<and> monitor_tick fmt_plain (example_env 1002)
       (example_manager [example_row ''1'' ''REVISADO''] 1000 1000 (example_file 1000 0),
        [(''IPS'', JNum 1000), (''MTESS'', JNum 0)])
     = ((example_manager [example_row ''1'' ''REVISADO''] 1000 1000 (example_file 1000 0),
         [(''IPS'', JNum 1000), (''MTESS'', JNum 0)]), [], None)"
  using idempotent_broadcast [of fmt_plain "example_env 1001"
      "example_manager [example_row ''1'' ''REVISADO''] 1000 1000 (example_file 1000 0)"
      initial_emitted_versions
      "example_manager [example_row ''1'' ''REVISADO''] 1000 1000 (example_file 1000 0)"
      "[(''IPS'', JNum 1000), (''MTESS'', JNum 0)]"
      "[\<lparr>su_source = ''IPS'', su_version = JNum 1000, su_last_updated = ''Desconocido''\<rparr>]" None
      "example_env 1002"
      "example_manager [example_row ''1'' ''REVISADO''] 1000 1000 (example_file 1000 0)"
      "[(''IPS'', JNum 1000), (''MTESS'', JNum 0)]" "[]" None]
  by (simp add: monitor_tick_def initial_emitted_versions_def get_formatted_date_def
      List.map_filter_def example_defs tick_defs)


section \<open>The patch worker's runs\<close>

lemma patch_modifier_len:
  "length (fst (patch_modifier a item mn)) = (if truthy mn then 1 else 0)"
  by (auto simp: patch_modifier_def truthy_def split: option.splits)

lemma patch_loop_two_step:
  "two_step_run status mn items (fst (patch_loop answers n status mn items))"
proof (induction items arbitrary: n)
  case Nil
  then show ?case by simp
next
  case (Cons i items)
  show ?case
  proof (cases "answers n")
    case Exn
    then show ?thesis
      using Cons.IH [of "Suc n"] by (auto simp: Let_def split: prod.splits)
  next
    case (Code c)
    show ?thesis
    proof (cases "c = 200")
      case False
      then show ?thesis
        using Code Cons.IH [of "Suc n"] by (auto simp: Let_def split: prod.splits)
    next
      case True
      show ?thesis
      proof (cases "truthy mn")
        case False
        then have "patch_modifier (answers (Suc n)) (str i) mn = ([], [])"
          by (auto simp: patch_modifier_def truthy_def split: option.splits)
        then show ?thesis
          using Code True False Cons.IH [of "Suc n"] by (auto simp: Let_def split: prod.splits)
      next
        case t: True
        then obtain who where who: "mn = Some who" "who \<noteq> []"
          by (auto simp: truthy_def split: option.splits)
        then show ?thesis
          using Code True t Cons.IH [of "Suc (Suc n)"]
          by (auto simp: patch_modifier_def Let_def truthy_def split: prod.splits)
      qed
    qed
  qed
qed

lemma patch_loop_status_requests:
  "map fst (filter is_status_patch (fst (patch_loop answers n status mn items)))
     = map (\<lambda>i. PatchStatus (str i) status) items"
proof (induction items arbitrary: n)
  case Nil
  then show ?case by simp
next
  case (Cons i items)
  show ?case
    using Cons.IH [of "Suc n"] Cons.IH [of "Suc (Suc n)"]
    by (auto simp: patch_modifier_def Let_def split: http_outcome.splits prod.splits option.splits)
qed

lemma patch_loop_failures_logged:
  "length (filter is_failed_modifier_patch (fst (patch_loop answers n status mn items)))
     = length (filter is_modifier_failure_line (snd (patch_loop answers n status mn items)))"
proof (induction items arbitrary: n)
  case Nil
  then show ?case by simp
next
  case (Cons i items)
  show ?case
    using Cons.IH [of "Suc n"] Cons.IH [of "Suc (Suc n)"]
    by (auto simp: patch_modifier_def Let_def split: http_outcome.splits prod.splits option.splits)
qed

lemmas patch_defs = patch_worker_def patch_modifier_def truthy_def answers_of_def Let_def
  str_int_def str_nat.simps digit_char_def dict_get_def

text \<open>
  C8, as the code has it. When the worker has an access token, a site id and the list id
  of the dataset, its run follows the two-step rule: for each row id in turn one status
  patch, the attribution patch right after it exactly when the status patch returned 200
  (and a modifier name was given), then the next row whatever the outcomes were. So the
  status patches of a run are one for each row id of the batch, in order, and nothing is
  sent twice. Every attribution patch that fails leaves one line in the log.
\<close>

theorem patch_worker_two_step:
  assumes token: "truthy (case auth of None \<Rightarrow> access_token m | Some tok \<Rightarrow> Some tok)"
      and site: "truthy (site_id m)"
      and lst: "truthy (case dict_get (list_ids m) source of None \<Rightarrow> None | Some x \<Rightarrow> x)"
      and run: "patch_worker auth answers item_ids status modifier_name source m = (m', tr, lg)"
  shows "two_step_run status modifier_name item_ids tr
       \<and> map fst (filter is_status_patch tr) = map (\<lambda>i. PatchStatus (str i) status) item_ids
       \<and> length (filter is_failed_modifier_patch tr) = length (filter is_modifier_failure_line lg)"
proof -
  have tr: "tr = fst (patch_loop answers 0 status modifier_name item_ids)"
    and lg: "lg = LogStarting (length item_ids)
                   # snd (patch_loop answers 0 status modifier_name item_ids) @ [LogFinished]"
    using token site lst run
    by (auto simp: patch_worker_def Let_def split: option.splits prod.splits)
  show ?thesis
    unfolding tr lg
    using patch_loop_two_step [of status modifier_name item_ids answers 0]
      patch_loop_status_requests [of answers 0 status modifier_name item_ids]
      patch_loop_failures_logged [of answers 0 status modifier_name item_ids]
    by simp
qed

theorem patch_worker_two_step_witness:
  "patch_worker (Some ''token2'') (answers_of [Code 200, Code 500, Code 404])
       [PInt 1, PStr ''2'', PInt 3] ''REVISADO'' (Some ''Ana'') ''IPS''
       (example_manager [] 0 0 Absent)
     = ((example_manager [] 0 0 Absent)\<lparr>access_token := Some ''token2''\<rparr>,
        [(PatchStatus ''1'' ''REVISADO'', Code 200), (PatchModificadoPor ''1'' ''Ana'', Code 500),
         (PatchStatus ''2'' ''REVISADO'', Code 404), (PatchStatus ''3'' ''REVISADO'', Exn)],
        [LogStarting 3, LogStatusUpdated ''1'', LogStatusUpdated ''1'', LogModificadoPorFailed ''1'',
         LogFailed ''2'' 404, LogResponse ''2'', LogException ''3'', LogFinished])"
  using patch_worker_two_step [where auth = "Some ''token2''"
      and m = "example_manager [] 0 0 Absent" and source = "''IPS''"
      and answers = "answers_of [Code 200, Code 500, Code 404]"
      and item_ids = "[PInt 1, PStr ''2'', PInt 3]" and status = "''REVISADO''"
      and modifier_name = "Some ''Ana''"
      and m' = "(example_manager [] 0 0 Absent)\<lparr>access_token := Some ''token2''\<rparr>"
      and tr = "[(PatchStatus ''1'' ''REVISADO'', Code 200), (PatchModificadoPor ''1'' ''Ana'', Code 500),
         (PatchStatus ''2'' ''REVISADO'', Code 404), (PatchStatus ''3'' ''REVISADO'', Exn)]"
      and lg = "[LogStarting 3, LogStatusUpdated ''1'', LogStatusUpdated ''1'', LogModificadoPorFailed ''1'',
         LogFailed ''2'' 404, LogResponse ''2'', LogException ''3'', LogFinished]"]
  by (simp add: patch_defs example_manager_def)

text \<open>
  The claim as stated fails when a connection detail is missing: without a site id the
  worker prints one line and patches no row of the batch.
\<close>

theorem missing_connection_patches_nothing_counterexample:
  "patch_worker (Some ''token2'') (answers_of [Code 200, Code 200]) [PInt 1] ''REVISADO''
       (Some ''Ana'') ''IPS'' ((example_manager [] 0 0 Absent)\<lparr>site_id := None\<rparr>)
     = ((example_manager [] 0 0 Absent)\<lparr>site_id := None, access_token := Some ''token2''\<rparr>,
        [], [LogMissingConnection])
   \<and> \<not> two_step_run ''REVISADO'' (Some ''Ana'') [PInt 1] []"
  by (simp add: patch_defs example_manager_def)

section \<open>The read methods\<close>

text \<open>
  C10. \<open>get_inconsistencies\<close> and \<open>get_verified\<close> raise AttributeError whenever the cached
  table of the source has a row, and return the empty table otherwise.
\<close>

theorem reads_through_self_df:
  "get_inconsistencies m source = (if dfs_get m source = [] then Inr [] else Inl AttributeError)
   \<and> get_verified m source = (if dfs_get m source = [] then Inr [] else Inl AttributeError)"
  by (simp add: get_inconsistencies_def get_verified_def self_df_def Let_def)

theorem reads_through_self_df_witness:
  "get_inconsistencies (example_manager [example_row ''1'' ''REVISADO''] 0 0 Absent) ''IPS''
     = Inl AttributeError
   \<and> get_verified (example_manager [example_row ''1'' ''REVISADO''] 0 0 Absent) ''IPS''
     = Inl AttributeError
   \<and> get_inconsistencies (example_manager [example_row ''1'' ''REVISADO''] 0 0 Absent) ''MTESS''
     = Inr []
   \<and> get_verified (example_manager [example_row ''1'' ''REVISADO''] 0 0 Absent) ''OTHER''
     = Inr []"
  using reads_through_self_df [of "example_manager [example_row ''1'' ''REVISADO''] 0 0 Absent" "''IPS''"]
    reads_through_self_df [of "example_manager [example_row ''1'' ''REVISADO''] 0 0 Absent" "''MTESS''"]
    reads_through_self_df [of "example_manager [example_row ''1'' ''REVISADO''] 0 0 Absent" "''OTHER''"]
  by (simp add: dfs_get_def dict_get_def example_manager_def)


section \<open>Presence events\<close>

lemma dict_set_length:
  "length (dict_set d k v) = (if k \<in> fst ` set d then length d else Suc (length d))"
  by (induction d k v rule: dict_set.induct) auto

lemma dict_set_values:
  "set (map snd (dict_set d k v)) \<subseteq> insert v (set (map snd d)) \<and> v \<in> set (map snd (dict_set d k v))"
  by (induction d k v rule: dict_set.induct) auto

lemma handle_connect_eq:
  assumes "claims \<noteq> []"
  shows "handle_connect (Some claims) photo sid cu
     = (dict_set cu sid (claims_info claims photo), True,
        (if list_ex (same_email (claims_info claims photo)) (map snd cu) then []
         else [User_joined (claims_info claims photo)])
        @ [Presence_list (map snd (dict_set cu sid (claims_info claims photo)))])"
  using assms by (simp add: handle_connect_def claims_info_def Let_def)

lemma second_session_not_new:
  "list_ex (same_email (claims_info claims2 photo2)) (map snd (dict_set cu sid1 (claims_info claims1 photo1)))"
  if "dict_get claims1 ''preferred_username'' = dict_get claims2 ''preferred_username''"
proof -
  have "claims_info claims1 photo1 \<in> set (map snd (dict_set cu sid1 (claims_info claims1 photo1)))"
    using dict_set_values by fast
  moreover have "same_email (claims_info claims2 photo2) (claims_info claims1 photo1)"
    using that by (simp add: same_email_def claims_info_def)
  ultimately show ?thesis
    unfolding list_ex_iff by blast
qed

text \<open>
  C9. A connecting client makes the others receive \<open>user_joined\<close> exactly when no existing
  connection has its email, so two sessions of one email, connecting where that email was
  absent, give one \<open>user_joined\<close> in all; the presence list sent to the connecting client
  has one entry for each connection, so two more entries after two new sessions. When a
  registered connection goes, \<open>user_left\<close> is broadcast exactly when no remaining connection
  has the email of the user that left, and the presence list of the remaining connections
  is broadcast in either case.
\<close>

theorem presence_dedup_by_email:
  assumes ne: "claims1 \<noteq> []" "claims2 \<noteq> []"
      and same: "dict_get claims1 ''preferred_username'' = dict_get claims2 ''preferred_username''"
      and c1: "handle_connect (Some claims1) photo1 sid1 cu = (cu1, ok1, em1)"
      and c2: "handle_connect (Some claims2) photo2 sid2 cu1 = (cu2, ok2, em2)"
      and d: "dict_get cu sid = Some user" "handle_disconnect sid cu = (cu', em)"
  shows "(list_ex is_joined em1
            \<longleftrightarrow> \<not> list_ex (\<lambda>u. ui_email u = dict_get claims1 ''preferred_username'') (map snd cu))
       \<and> (\<not> list_ex (\<lambda>u. ui_email u = dict_get claims1 ''preferred_username'') (map snd cu)
            \<longrightarrow> length (filter is_joined (em1 @ em2)) = 1)
       \<and> Presence_list (map snd cu1) \<in> set em1 \<and> Presence_list (map snd cu2) \<in> set em2
       \<and> length (map snd cu2) = length cu2
       \<and> (sid1 \<noteq> sid2 \<and> sid1 \<notin> fst ` set cu \<and> sid2 \<notin> fst ` set cu
            \<longrightarrow> length cu2 = length cu + 2)
       \<and> cu' = dict_pop cu sid
       \<and> (list_ex is_left em \<longleftrightarrow> \<not> list_ex (\<lambda>u. ui_email u = ui_email user) (map snd cu'))
       \<and> Presence_update (map snd cu') \<in> set em"
proof -
  let ?i1 = "claims_info claims1 photo1" and ?i2 = "claims_info claims2 photo2"
  have e1: "same_email ?i1 = (\<lambda>u. ui_email u = dict_get claims1 ''preferred_username'')"
    by (auto simp: same_email_def claims_info_def fun_eq_iff)
  have r1: "cu1 = dict_set cu sid1 ?i1"
    "em1 = (if list_ex (same_email ?i1) (map snd cu) then [] else [User_joined ?i1])
            @ [Presence_list (map snd cu1)]"
    using c1 handle_connect_eq [OF ne(1), of photo1 sid1 cu] by auto
  have r2: "cu2 = dict_set cu1 sid2 ?i2" "em2 = [Presence_list (map snd cu2)]"
    using c2 handle_connect_eq [OF ne(2), of photo2 sid2 cu1]
      second_session_not_new [OF same, of photo2 cu sid1 photo1] r1(1) by auto
  have r3: "cu' = dict_pop cu sid"
    "em = (if \<not> list_ex (same_email user) (map snd cu') then [User_left user] else [])
           @ [Presence_update (map snd cu')]"
    using d by (auto simp: handle_disconnect_def Let_def)
  have e3: "same_email user = (\<lambda>u. ui_email u = ui_email user)"
    by (auto simp: same_email_def fun_eq_iff)
  have p1: "list_ex is_joined em1
            \<longleftrightarrow> \<not> list_ex (\<lambda>u. ui_email u = dict_get claims1 ''preferred_username'') (map snd cu)"
    unfolding r1(2) e1 by simp
  have p2: "\<not> list_ex (\<lambda>u. ui_email u = dict_get claims1 ''preferred_username'') (map snd cu)
            \<longrightarrow> length (filter is_joined (em1 @ em2)) = 1"
    unfolding r1(2) r2(2) e1 by simp
  have p3: "Presence_list (map snd cu1) \<in> set em1 \<and> Presence_list (map snd cu2) \<in> set em2"
    unfolding r1(2) r2(2) by simp
  have p4: "sid1 \<noteq> sid2 \<and> sid1 \<notin> fst ` set cu \<and> sid2 \<notin> fst ` set cu
            \<longrightarrow> length cu2 = length cu + 2"
    unfolding r2(1) r1(1) by (simp add: dict_set_length dict_keys_set)
  have p5: "list_ex is_left em \<longleftrightarrow> \<not> list_ex (\<lambda>u. ui_email u = ui_email user) (map snd cu')"
    unfolding r3(2) e3 by simp
  have p6: "Presence_update (map snd cu') \<in> set em"
    unfolding r3(2) by simp
  show ?thesis
    using p1 p2 p3 p4 p5 p6 r3(1) by simp
qed

theorem presence_dedup_by_email_witness:
  "handle_connect (Some (example_claims ''Ana'' ''ana@prodato.com.py'')) None ''s1''
       [(''s0'', example_user ''Bob'' ''bob@prodato.com.py'')]
     = ([(''s0'', example_user ''Bob'' ''bob@prodato.com.py''),
         (''s1'', example_user ''Ana'' ''ana@prodato.com.py'')], True,
        [User_joined (example_user ''Ana'' ''ana@prodato.com.py''),
         Presence_list [example_user ''Bob'' ''bob@prodato.com.py'',
                        example_user ''Ana'' ''ana@prodato.com.py'']])
   \<and> handle_connect (Some (example_claims ''Ana'' ''ana@prodato.com.py'')) None ''s2''
       [(''s0'', example_user ''Bob'' ''bob@prodato.com.py''),
        (''s1'', example_user ''Ana'' ''ana@prodato.com.py'')]
     = ([(''s0'', example_user ''Bob'' ''bob@prodato.com.py''),
         (''s1'', example_user ''Ana'' ''ana@prodato.com.py''),
         (''s2'', example_user ''Ana'' ''ana@prodato.com.py'')], True,
        [Presence_list [example_user ''Bob'' ''bob@prodato.com.py'',
                        example_user ''Ana'' ''ana@prodato.com.py'',
                        example_user ''Ana'' ''ana@prodato.com.py'']])
   \<and> handle_disconnect ''s0'' [(''s0'', example_user ''Bob'' ''bob@prodato.com.py'')]
     = ([], [User_left (example_user ''Bob'' ''bob@prodato.com.py''), Presence_update []])"
  using presence_dedup_by_email [where
      ?claims1.0 = "example_claims ''Ana'' ''ana@prodato.com.py''"
      and ?claims2.0 = "example_claims ''Ana'' ''ana@prodato.com.py''"
      and ?photo1.0 = None and ?photo2.0 = None and ?sid1.0 = "''s1''" and ?sid2.0 = "''s2''"
      and cu = "[(''s0'', example_user ''Bob'' ''bob@prodato.com.py'')]"
      and ?cu1.0 = "[(''s0'', example_user ''Bob'' ''bob@prodato.com.py''),
                (''s1'', example_user ''Ana'' ''ana@prodato.com.py'')]"
      and ?ok1.0 = True
      and ?em1.0 = "[User_joined (example_user ''Ana'' ''ana@prodato.com.py''),
         Presence_list [example_user ''Bob'' ''bob@prodato.com.py'',
                        example_user ''Ana'' ''ana@prodato.com.py'']]"
      and ?cu2.0 = "[(''s0'', example_user ''Bob'' ''bob@prodato.com.py''),
         (''s1'', example_user ''Ana'' ''ana@prodato.com.py''),
         (''s2'', example_user ''Ana'' ''ana@prodato.com.py'')]"
      and ?ok2.0 = True
      and ?em2.0 = "[Presence_list [example_user ''Bob'' ''bob@prodato.com.py'',
                        example_user ''Ana'' ''ana@prodato.com.py'',
                        example_user ''Ana'' ''ana@prodato.com.py'']]"
      and sid = "''s0''" and user = "example_user ''Bob'' ''bob@prodato.com.py''"
      and cu' = "[]"
      and em = "[User_left (example_user ''Bob'' ''bob@prodato.com.py''), Presence_update []]"]
  by (simp add: handle_connect_def handle_disconnect_def example_claims_def example_user_def
      same_email_def dict_get_def Let_def)

end
